theory Spec2Isabelle
  imports Complex_Main "HOL-Library.Multiset" "HOL-Library.Sublist"
begin

section \<open>The pattern search of the crypto pattern dashboard\<close>

text \<open>
  The development embeds \<^verbatim>\<open>find_similar_patterns\<close> of \<^verbatim>\<open>src/maincode.py\<close>:
  the scoring loop over the start indices, the descending sort of the scored
  candidates and the selection loop that keeps one candidate per calendar day.

  Two library calls of the source are parameters of the model, so that every
  theorem holds for whatever they compute:
  \<^item> \<^verbatim>\<open>np.corrcoef(current, past)[0, 1]\<close> is a function \<open>corrcoef\<close> from two
    windows of closing prices to a score;
  \<^item> \<^verbatim>\<open>ts.strftime("%Y-%m-%d")\<close> is a function \<open>strftime\<close> from a timestamp to
    a day key.
\<close>

subsection \<open>Data\<close>

text \<open>
  A score is what a float64 comparison can tell apart: not-a-number, or a
  number. \<^verbatim>\<open>np.corrcoef\<close> clips its entries to the range from -1 to 1, so an
  infinite score does not occur.
\<close>

datatype score = NaN | Fin real

text \<open>The float comparisons: every comparison with NaN is false.\<close>

fun score_lt :: "score \<Rightarrow> score \<Rightarrow> bool" where
  "score_lt (Fin x) (Fin y) = (x < y)"
| "score_lt _ _ = False"

fun score_ge :: "score \<Rightarrow> score \<Rightarrow> bool" where
  "score_ge (Fin x) (Fin y) = (x \<ge> y)"
| "score_ge _ _ = False"

fun score_eq :: "score \<Rightarrow> score \<Rightarrow> bool" where
  "score_eq (Fin x) (Fin y) = (x = y)"
| "score_eq _ _ = False"

fun is_nan :: "score \<Rightarrow> bool" where
  "is_nan NaN = True"
| "is_nan (Fin _) = False"

text \<open>
  A row of the data frame, with the two columns the search reads. The
  timestamp is the bar's opening time in milliseconds since the epoch, as
  \<^verbatim>\<open>fetch_ohlcv\<close> receives it.
\<close>

record bar =
  timestamp :: int
  close :: real

text \<open>The tuple \<^verbatim>\<open>(corr, i, timestamp)\<close> appended to \<^verbatim>\<open>similarities\<close>.\<close>

type_synonym candidate = "score \<times> int \<times> int"

definition cand_score :: "candidate \<Rightarrow> score" where
  "cand_score c = fst c"

definition cand_index :: "candidate \<Rightarrow> int" where
  "cand_index c = fst (snd c)"

definition cand_ts :: "candidate \<Rightarrow> int" where
  "cand_ts c = snd (snd c)"

datatype py_error = IndexError | ValueError

subsection \<open>Positional access\<close>

text \<open>
  \<^verbatim>\<open>s.iloc[lo:hi]\<close>: a negative bound counts from the end, and both bounds are
  clamped to the series, so a slice never raises.
\<close>

definition slice_bound :: "nat \<Rightarrow> int \<Rightarrow> nat" where
  "slice_bound n k = (if k < 0 then nat (max (k + int n) 0) else min (nat k) n)"

definition iloc_slice :: "'a list \<Rightarrow> int \<Rightarrow> int \<Rightarrow> 'a list" where
  "iloc_slice xs lo hi =
     take (slice_bound (length xs) hi - slice_bound (length xs) lo)
       (drop (slice_bound (length xs) lo) xs)"

text \<open>\<^verbatim>\<open>s.iloc[lo:]\<close>, the slice with no upper bound.\<close>

definition iloc_from :: "'a list \<Rightarrow> int \<Rightarrow> 'a list" where
  "iloc_from xs lo = drop (slice_bound (length xs) lo) xs"

text \<open>
  \<^verbatim>\<open>s.iloc[k]\<close>: a negative position counts from the end, and a position
  outside the series raises IndexError.
\<close>

definition iloc_at :: "'a list \<Rightarrow> int \<Rightarrow> py_error + 'a" where
  "iloc_at xs k =
     (let n = int (length xs); j = (if k < 0 then k + n else k)
      in if 0 \<le> j \<and> j < n then Inr (xs ! nat j) else Inl IndexError)"

text \<open>\<^verbatim>\<open>range(k)\<close>: the integers from 0 below \<open>k\<close>, none when \<open>k \<le> 0\<close>.\<close>

definition py_range :: "int \<Rightarrow> int list" where
  "py_range k = map int [0..<nat k]"

subsection \<open>The scoring loop\<close>

text \<open>
  \<^verbatim>\<open>np.corrcoef(x, y)\<close> stacks its two arguments as the rows of one matrix and
  raises ValueError when their lengths differ; otherwise entry \<open>[0, 1]\<close> is
  the score.
\<close>

definition corrcoef_01 ::
  "(real list \<Rightarrow> real list \<Rightarrow> score) \<Rightarrow> real list \<Rightarrow> real list \<Rightarrow> py_error + score" where
  "corrcoef_01 corrcoef x y =
     (if length x \<noteq> length y then Inl ValueError else Inr (corrcoef x y))"

text \<open>
  The loop \<^verbatim>\<open>for i in range(len(df) - window - forward)\<close>, with
  \<^verbatim>\<open>similarities\<close> as the accumulator. An exception leaves the loop and the
  function.
\<close>

fun scoring_loop ::
  "(real list \<Rightarrow> real list \<Rightarrow> score) \<Rightarrow> bar list \<Rightarrow> int \<Rightarrow> real list \<Rightarrow>
   int list \<Rightarrow> candidate list \<Rightarrow> py_error + candidate list" where
  "scoring_loop corrcoef df window current [] similarities = Inr similarities"
| "scoring_loop corrcoef df window current (i # is) similarities =
     (let past = iloc_slice (map close df) i (i + window)
      in if int (length past) < window
         then scoring_loop corrcoef df window current is similarities
         else
           (case corrcoef_01 corrcoef current past of
              Inl e \<Rightarrow> Inl e
            | Inr corr \<Rightarrow>
                (case iloc_at (map timestamp df) (i + window) of
                   Inl e \<Rightarrow> Inl e
                 | Inr ts \<Rightarrow>
                     scoring_loop corrcoef df window current is
                       (similarities @ [(corr, i, ts)]))))"

subsection \<open>The sort\<close>

text \<open>
  \<^verbatim>\<open>similarities.sort(key=lambda x: x[0], reverse=True)\<close>. Python's sort
  compares keys with \<open><\<close> only, is stable, and for \<^verbatim>\<open>reverse=True\<close> reverses
  the list, sorts it ascending and reverses it again, which keeps equal keys in
  their original order. The ascending sort is modelled by insertion after the
  last element that is not greater. On keys that \<open><\<close> orders totally, every
  stable sort returns this list. With a NaN among the keys the comparisons are
  inconsistent and the order of a longer list depends on the runs Python's
  merge sort finds; the model agrees with it on lists of up to two elements,
  where the sort is a single comparison.
\<close>

fun insort_lt :: "('a \<Rightarrow> score) \<Rightarrow> 'a \<Rightarrow> 'a list \<Rightarrow> 'a list" where
  "insort_lt key x [] = [x]"
| "insort_lt key x (y # ys) =
     (if score_lt (key x) (key y) then x # y # ys else y # insort_lt key x ys)"

definition sort_ascending :: "('a \<Rightarrow> score) \<Rightarrow> 'a list \<Rightarrow> 'a list" where
  "sort_ascending key xs = foldl (\<lambda>sorted x. insort_lt key x sorted) [] xs"

definition sort_reverse :: "('a \<Rightarrow> score) \<Rightarrow> 'a list \<Rightarrow> 'a list" where
  "sort_reverse key xs = rev (sort_ascending key (rev xs))"

subsection \<open>The selection loop\<close>

text \<open>
  The loop \<^verbatim>\<open>for corr, idx, ts in similarities\<close> with the dictionary
  \<^verbatim>\<open>picked\<close> and the list \<^verbatim>\<open>results\<close> as its state. The test
  \<^verbatim>\<open>len(results) >= top_n\<close> comes after the candidate is handled, as in the
  source.
\<close>

fun select_loop ::
  "(int \<Rightarrow> 'd) \<Rightarrow> int \<Rightarrow> candidate list \<Rightarrow> ('d \<rightharpoonup> bool) \<Rightarrow> candidate list \<Rightarrow>
   candidate list" where
  "select_loop strftime top_n [] picked results = results"
| "select_loop strftime top_n (c # cs) picked results =
     (let day = strftime (cand_ts c);
          accept = (picked day = None);
          picked' = (if accept then picked(day \<mapsto> True) else picked);
          results' = (if accept then results @ [c] else results)
      in if int (length results') \<ge> top_n then results'
         else select_loop strftime top_n cs picked' results')"

subsection \<open>The search\<close>

definition similarities_of ::
  "(real list \<Rightarrow> real list \<Rightarrow> score) \<Rightarrow> bar list \<Rightarrow> int \<Rightarrow> int \<Rightarrow>
   py_error + candidate list" where
  "similarities_of corrcoef df window forward =
     (let current = iloc_from (map close df) (- window)
      in scoring_loop corrcoef df window current
           (py_range (int (length df) - window - forward)) [])"

definition find_similar_patterns ::
  "(real list \<Rightarrow> real list \<Rightarrow> score) \<Rightarrow> (int \<Rightarrow> 'd) \<Rightarrow> bar list \<Rightarrow> int \<Rightarrow> int \<Rightarrow> int \<Rightarrow>
   py_error + candidate list" where
  "find_similar_patterns corrcoef strftime df window forward top_n =
     (case similarities_of corrcoef df window forward of
        Inl e \<Rightarrow> Inl e
      | Inr similarities \<Rightarrow>
          Inr (select_loop strftime top_n (sort_reverse cand_score similarities)
                 Map.empty []))"

subsection \<open>The scorer and the day key\<close>

text \<open>
  Modelled from the spec: the Similarity Scorer. The source takes it from
  numpy (\<^verbatim>\<open>np.corrcoef\<close>), whose code is not part of the repository. The
  spec describes it as the Pearson correlation coefficient of two equal-length
  sequences: mean-centre both windows, compute the covariance and the two
  variances, divide; the score is undefined (NaN) when a window has zero
  variance. The definitions below are that coefficient in exact arithmetic;
  the rounding of float64 is not modelled. \<open>pearson\<close> also instantiates
  \<open>corrcoef\<close> in the examples.
\<close>

definition mean :: "real list \<Rightarrow> real" where
  "mean xs = sum_list xs / real (length xs)"

definition covariance :: "real list \<Rightarrow> real list \<Rightarrow> real" where
  "covariance xs ys =
     sum_list (map2 (\<lambda>x y. (x - mean xs) * (y - mean ys)) xs ys)"

text \<open>
  Modelled from the spec: the score of the Similarity Scorer, the covariance
  over the two standard deviations, NaN when a variance is zero.
\<close>

definition pearson :: "real list \<Rightarrow> real list \<Rightarrow> score" where
  "pearson xs ys =
     (if covariance xs xs = 0 \<or> covariance ys ys = 0 then NaN
      else Fin (covariance xs ys / (sqrt (covariance xs xs) * sqrt (covariance ys ys))))"

text \<open>
  The calendar day of a timestamp as the number of whole days since the epoch;
  \<^verbatim>\<open>"%Y-%m-%d"\<close> prints that day, a different string for a different day.
\<close>

definition day_number :: "int \<Rightarrow> int" where
  "day_number ts = ts div 86400000"

text \<open>
  The tuple the scoring loop appends for start index \<open>i\<close> when nothing raises:
  the score of the window at \<open>i\<close> against the current window, \<open>i\<close> itself, and
  the timestamp of the bar at \<open>i + window\<close>.
\<close>

definition candidate_at ::
  "(real list \<Rightarrow> real list \<Rightarrow> score) \<Rightarrow> bar list \<Rightarrow> int \<Rightarrow> int \<Rightarrow> candidate" where
  "candidate_at corrcoef df window i =
     (corrcoef (iloc_from (map close df) (- window)) (iloc_slice (map close df) i (i + window)),
      i, timestamp (df ! nat (i + window)))"

abbreviation day_of :: "(int \<Rightarrow> 'd) \<Rightarrow> candidate \<Rightarrow> 'd" where
  "day_of strftime c \<equiv> strftime (cand_ts c)"

abbreviation ascending :: "('a \<Rightarrow> score) \<Rightarrow> 'a list \<Rightarrow> bool" where
  "ascending key \<equiv> sorted_wrt (\<lambda>a b. score_ge (key b) (key a))"

subsection \<open>The search as a transition system\<close>

text \<open>
  One invocation, statement by statement: the scoring loop, the sort, the
  selection loop, and the two ways it ends, with a result or with an exception.
  A state holds what the function's local variables hold; the frame and the
  parameters are read and never written.
\<close>

datatype 'd state =
    Scoring "int list" "candidate list"
  | Sorting "candidate list"
  | Selecting "candidate list" "'d \<rightharpoonup> bool" "candidate list"
  | Done "candidate list"
  | Raised py_error

inductive step ::
  "(real list \<Rightarrow> real list \<Rightarrow> score) \<Rightarrow> (int \<Rightarrow> 'd) \<Rightarrow> bar list \<Rightarrow> int \<Rightarrow> int \<Rightarrow>
   'd state \<Rightarrow> 'd state \<Rightarrow> bool"
  for corrcoef :: "real list \<Rightarrow> real list \<Rightarrow> score" and strftime :: "int \<Rightarrow> 'd"
    and df :: "bar list" and window :: int and top_n :: int
where
  skipped:
    "int (length (iloc_slice (map close df) i (i + window))) < window \<Longrightarrow>
     step corrcoef strftime df window top_n (Scoring (i # is) sims) (Scoring is sims)"
| corrcoef_raised:
    "\<not> int (length (iloc_slice (map close df) i (i + window))) < window \<Longrightarrow>
     corrcoef_01 corrcoef (iloc_from (map close df) (- window))
       (iloc_slice (map close df) i (i + window)) = Inl e \<Longrightarrow>
     step corrcoef strftime df window top_n (Scoring (i # is) sims) (Raised e)"
| anchor_raised:
    "\<not> int (length (iloc_slice (map close df) i (i + window))) < window \<Longrightarrow>
     corrcoef_01 corrcoef (iloc_from (map close df) (- window))
       (iloc_slice (map close df) i (i + window)) = Inr corr \<Longrightarrow>
     iloc_at (map timestamp df) (i + window) = Inl e \<Longrightarrow>
     step corrcoef strftime df window top_n (Scoring (i # is) sims) (Raised e)"
| scored:
    "\<not> int (length (iloc_slice (map close df) i (i + window))) < window \<Longrightarrow>
     corrcoef_01 corrcoef (iloc_from (map close df) (- window))
       (iloc_slice (map close df) i (i + window)) = Inr corr \<Longrightarrow>
     iloc_at (map timestamp df) (i + window) = Inr ts \<Longrightarrow>
     step corrcoef strftime df window top_n (Scoring (i # is) sims)
       (Scoring is (sims @ [(corr, i, ts)]))"
| scoring_finished:
    "step corrcoef strftime df window top_n (Scoring [] sims) (Sorting sims)"
| sorted:
    "step corrcoef strftime df window top_n (Sorting sims)
       (Selecting (sort_reverse cand_score sims) Map.empty [])"
| accepted_last:
    "picked (strftime (cand_ts c)) = None \<Longrightarrow> top_n \<le> int (length (results @ [c])) \<Longrightarrow>
     step corrcoef strftime df window top_n (Selecting (c # cs) picked results)
       (Done (results @ [c]))"
| accepted:
    "picked (strftime (cand_ts c)) = None \<Longrightarrow> \<not> top_n \<le> int (length (results @ [c])) \<Longrightarrow>
     step corrcoef strftime df window top_n (Selecting (c # cs) picked results)
       (Selecting cs (picked(strftime (cand_ts c) \<mapsto> True)) (results @ [c]))"
| rejected_last:
    "picked (strftime (cand_ts c)) \<noteq> None \<Longrightarrow> top_n \<le> int (length results) \<Longrightarrow>
     step corrcoef strftime df window top_n (Selecting (c # cs) picked results) (Done results)"
| rejected:
    "picked (strftime (cand_ts c)) \<noteq> None \<Longrightarrow> \<not> top_n \<le> int (length results) \<Longrightarrow>
     step corrcoef strftime df window top_n (Selecting (c # cs) picked results)
       (Selecting cs picked results)"
| exhausted:
    "step corrcoef strftime df window top_n (Selecting [] picked results) (Done results)"

code_pred step .

inductive_cases step_ScoringE: "step corrcoef strftime df window top_n (Scoring is sims) s"
inductive_cases step_SortingE: "step corrcoef strftime df window top_n (Sorting sims) s"
inductive_cases step_SelectingE:
  "step corrcoef strftime df window top_n (Selecting cs picked results) s"
inductive_cases step_DoneE: "step corrcoef strftime df window top_n (Done results) s"
inductive_cases step_RaisedE: "step corrcoef strftime df window top_n (Raised e) s"

fun final :: "'d state \<Rightarrow> bool" where
  "final (Done _) = True"
| "final (Raised _) = True"
| "final _ = False"

definition initial :: "bar list \<Rightarrow> int \<Rightarrow> int \<Rightarrow> 'd state" where
  "initial df window forward = Scoring (py_range (int (length df) - window - forward)) []"

fun outcome :: "py_error + candidate list \<Rightarrow> 'd state" where
  "outcome (Inl e) = Raised e"
| "outcome (Inr results) = Done results"

section \<open>Properties of the parts\<close>

subsection \<open>Positions, slices and the scoring loop\<close>

lemma py_range_mem: "i \<in> set (py_range k) \<longleftrightarrow> 0 \<le> i \<and> i < k"
  by (auto simp: py_range_def image_iff intro: bexI [of _ "nat i"])

lemma py_range_nil: "k \<le> 0 \<Longrightarrow> py_range k = []"
  by (simp add: py_range_def)

lemma py_range_sorted: "sorted_wrt (<) (py_range k)"
  by (simp add: py_range_def sorted_wrt_map)

lemma iloc_slice_window:
  assumes "0 \<le> i" "0 \<le> w" "i + w \<le> int (length xs)"
  shows "iloc_slice xs i (i + w) = take (nat w) (drop (nat i) xs)"
proof -
  have "slice_bound (length xs) i = nat i" "slice_bound (length xs) (i + w) = nat i + nat w"
    using assms by (auto simp: slice_bound_def)
  then show ?thesis by (simp add: iloc_slice_def)
qed

lemma length_iloc_slice_window:
  assumes "0 \<le> i" "0 \<le> w" "i + w \<le> int (length xs)"
  shows "int (length (iloc_slice xs i (i + w))) = w"
  using assms by (simp add: iloc_slice_window)

lemma iloc_at_in_range:
  "0 \<le> k \<Longrightarrow> k < int (length xs) \<Longrightarrow> iloc_at xs k = Inr (xs ! nat k)"
  by (simp add: iloc_at_def)

lemma length_iloc_from_tail:
  "0 < w \<Longrightarrow> w \<le> int (length xs) \<Longrightarrow> int (length (iloc_from xs (- w))) = w"
  by (auto simp: iloc_from_def slice_bound_def)

lemma scoring_loop_regular:
  assumes "int (length current) = window"
    and "\<forall>i\<in>set is. 0 \<le> i \<and> i + window < int (length df)"
  shows "scoring_loop corrcoef df window current is acc =
     Inr (acc @ map (\<lambda>i. (corrcoef current (iloc_slice (map close df) i (i + window)), i,
                        timestamp (df ! nat (i + window)))) is)"
  using assms(2)
proof (induction "is" arbitrary: acc)
  case Nil
  then show ?case by simp
next
  case (Cons i "is")
  have w: "0 \<le> window" using assms(1) by linarith
  have i: "0 \<le> i" "i + window < int (length df)" using Cons.prems by auto
  have len: "int (length (iloc_slice (map close df) i (i + window))) = window"
    using i w by (simp add: length_iloc_slice_window)
  have at: "iloc_at (map timestamp df) (i + window) = Inr (timestamp (df ! nat (i + window)))"
    using i w by (simp add: iloc_at_in_range)
  have cc: "corrcoef_01 corrcoef current (iloc_slice (map close df) i (i + window)) =
      Inr (corrcoef current (iloc_slice (map close df) i (i + window)))"
    using len assms(1) by (simp add: corrcoef_01_def)
  show ?case using Cons.IH [of "acc @ [(corrcoef current (iloc_slice (map close df) i (i + window)), i,
                        timestamp (df ! nat (i + window)))]"] Cons.prems
    by (simp add: Let_def len at cc)
qed

lemma similarities_of_regular:
  assumes "0 < window" "0 \<le> forward"
  shows "similarities_of corrcoef df window forward =
     Inr (map (candidate_at corrcoef df window) (py_range (int (length df) - window - forward)))"
proof (cases "int (length df) - window - forward \<le> 0")
  case True
  then show ?thesis by (simp add: similarities_of_def py_range_nil)
next
  case False
  then have "window \<le> int (length df)" using assms by linarith
  then have cur: "int (length (iloc_from (map close df) (- window))) = window"
    using assms length_iloc_from_tail [of window "map close df"] by simp
  have rng: "\<forall>i\<in>set (py_range (int (length df) - window - forward)).
      0 \<le> i \<and> i + window < int (length df)"
    using assms by (auto simp: py_range_mem)
  show ?thesis
    unfolding similarities_of_def Let_def
    using scoring_loop_regular [OF cur rng, of corrcoef "[]"] 
    by (simp add: candidate_at_def [abs_def])
qed

lemma scoring_loop_indices:
  "scoring_loop corrcoef df window current is acc = Inr sims \<Longrightarrow>
   \<exists>js. subseq js is \<and> map cand_index sims = map cand_index acc @ js"
proof (induction "is" arbitrary: acc)
  case Nil
  then show ?case by simp
next
  case (Cons i "is")
  show ?case
  proof (cases "int (length (iloc_slice (map close df) i (i + window))) < window")
    case True
    with Cons.prems have "scoring_loop corrcoef df window current is acc = Inr sims"
      by (simp add: Let_def)
    from Cons.IH [OF this] show ?thesis by auto
  next
    case False
    with Cons.prems obtain corr ts where
      "scoring_loop corrcoef df window current is (acc @ [(corr, i, ts)]) = Inr sims"
      by (auto simp: Let_def split: sum.splits)
    from Cons.IH [OF this] show ?thesis by (auto simp: cand_index_def)
  qed
qed

subsection \<open>The sort on scores without NaN\<close>

lemma score_ge_iff_not_lt:
  "\<not> is_nan a \<Longrightarrow> \<not> is_nan b \<Longrightarrow> score_ge a b \<longleftrightarrow> \<not> score_lt a b"
  by (cases a; cases b) auto

lemma score_eq_iff: "\<not> is_nan a \<Longrightarrow> score_eq a b \<longleftrightarrow> a = b"
  by (cases a; cases b) auto

lemma score_ge_trans: "score_ge a b \<Longrightarrow> score_ge b c \<Longrightarrow> score_ge a c"
  by (cases a; cases b; cases c) auto

lemma score_lt_ge_trans: "score_lt a b \<Longrightarrow> score_ge c b \<Longrightarrow> score_lt a c"
  by (cases a; cases b; cases c) auto

lemma score_lt_neq: "score_lt a b \<Longrightarrow> b \<noteq> a"
  by (cases a; cases b) auto

lemma set_insort_lt: "set (insort_lt key x ys) = insert x (set ys)"
  by (induction ys) auto

lemma mset_insort_lt: "mset (insort_lt key x ys) = add_mset x (mset ys)"
  by (induction ys) auto

lemma sort_ascending_snoc:
  "sort_ascending key (xs @ [x]) = insort_lt key x (sort_ascending key xs)"
  by (simp add: sort_ascending_def)

lemma mset_sort_ascending: "mset (sort_ascending key xs) = mset xs"
  by (induction xs rule: rev_induct) (simp_all add: sort_ascending_def mset_insort_lt)

lemma mset_sort_reverse: "mset (sort_reverse key xs) = mset xs"
  by (simp add: sort_reverse_def mset_sort_ascending)

lemma set_sort_reverse: "set (sort_reverse key xs) = set xs"
  using mset_sort_reverse [of key xs] by (metis set_mset_mset)

lemma ascending_insort_lt:
  assumes "\<not> is_nan (key x)" "\<forall>y\<in>set ys. \<not> is_nan (key y)" "ascending key ys"
  shows "ascending key (insort_lt key x ys)"
  using assms
proof (induction ys)
  case Nil
  then show ?case by simp
next
  case (Cons y ys)
  show ?case
  proof (cases "score_lt (key x) (key y)")
    case True
    then have "score_ge (key y) (key x)" by (cases "key x"; cases "key y") auto
    moreover have "\<forall>z\<in>set ys. score_ge (key z) (key x)"
      using Cons.prems(3) calculation by (auto intro: score_ge_trans)
    ultimately show ?thesis using True Cons.prems(3) by simp
  next
    case False
    then have "score_ge (key x) (key y)"
      using Cons.prems by (simp add: score_ge_iff_not_lt)
    then show ?thesis using False Cons by (auto simp: set_insort_lt)
  qed
qed

lemma ascending_sort_ascending:
  "\<forall>x\<in>set xs. \<not> is_nan (key x) \<Longrightarrow> ascending key (sort_ascending key xs)"
proof (induction xs rule: rev_induct)
  case Nil
  then show ?case by (simp add: sort_ascending_def)
next
  case (snoc x xs)
  have "set (sort_ascending key xs) = set xs"
    using mset_sort_ascending [of key xs] by (metis set_mset_mset)
  with snoc show ?case
    by (simp add: sort_ascending_snoc ascending_insort_lt)
qed

lemma filter_insort_lt:
  assumes "\<not> is_nan (key x)" "\<forall>y\<in>set ys. \<not> is_nan (key y)" "ascending key ys"
  shows "filter (\<lambda>y. key y = k) (insort_lt key x ys) =
         filter (\<lambda>y. key y = k) ys @ (if key x = k then [x] else [])"
  using assms
proof (induction ys)
  case Nil
  then show ?case by simp
next
  case (Cons y ys)
  show ?case
  proof (cases "score_lt (key x) (key y)")
    case True
    have "\<forall>z\<in>set (y # ys). score_lt (key x) (key z)"
      using True Cons.prems(3) by (auto intro: score_lt_ge_trans)
    then have "\<forall>z\<in>set (y # ys). key z \<noteq> key x"
      by (auto dest: score_lt_neq)
    then have "key x = k \<Longrightarrow> filter (\<lambda>y. key y = k) (y # ys) = []"
      by (auto simp: filter_empty_conv)
    then show ?thesis using True by auto
  next
    case False
    then show ?thesis using Cons by auto
  qed
qed

lemma filter_sort_ascending:
  "\<forall>x\<in>set xs. \<not> is_nan (key x) \<Longrightarrow>
   filter (\<lambda>y. key y = k) (sort_ascending key xs) = filter (\<lambda>y. key y = k) xs"
proof (induction xs rule: rev_induct)
  case Nil
  then show ?case by (simp add: sort_ascending_def)
next
  case (snoc x xs)
  have "set (sort_ascending key xs) = set xs"
    using mset_sort_ascending [of key xs] by (metis set_mset_mset)
  with snoc show ?case
    by (simp add: sort_ascending_snoc filter_insort_lt ascending_sort_ascending)
qed

lemma filter_sort_reverse:
  assumes "\<forall>x\<in>set xs. \<not> is_nan (key x)"
  shows "filter (\<lambda>y. key y = k) (sort_reverse key xs) = filter (\<lambda>y. key y = k) xs"
proof -
  have "filter (\<lambda>y. key y = k) (sort_ascending key (rev xs)) = filter (\<lambda>y. key y = k) (rev xs)"
    using assms by (intro filter_sort_ascending) simp
  then show ?thesis by (simp add: sort_reverse_def rev_filter [symmetric])
qed

lemma descending_sort_reverse:
  assumes "\<forall>x\<in>set xs. \<not> is_nan (key x)"
  shows "sorted_wrt (\<lambda>a b. score_ge (key a) (key b)) (sort_reverse key xs)"
proof -
  have "ascending key (sort_ascending key (rev xs))"
    using assms by (intro ascending_sort_ascending) simp
  then show ?thesis by (simp add: sort_reverse_def sorted_wrt_rev)
qed

lemma sorted_wrt_ties:
  "(\<And>k. sorted_wrt Q (filter (\<lambda>y. f y = k) xs)) \<Longrightarrow>
   sorted_wrt (\<lambda>a b. f a = f b \<longrightarrow> Q a b) xs"
proof (induction xs)
  case Nil
  then show ?case by simp
next
  case (Cons x xs)
  have tail: "sorted_wrt Q (filter (\<lambda>y. f y = k) xs)" for k
    using Cons.prems [of k] by (simp split: if_splits)
  have "\<forall>y\<in>set xs. f x = f y \<longrightarrow> Q x y"
    using Cons.prems [of "f x"] by auto
  with Cons.IH tail show ?case by simp
qed

lemma sorted_wrt_conj:
  "sorted_wrt P xs \<Longrightarrow> sorted_wrt Q xs \<Longrightarrow> sorted_wrt (\<lambda>a b. P a b \<and> Q a b) xs"
  by (induction xs) auto

lemma sorted_wrt_subseq: "subseq ys xs \<Longrightarrow> sorted_wrt R xs \<Longrightarrow> sorted_wrt R ys"
proof (induction rule: list_emb.induct)
  case (list_emb_Cons xs ys y)
  then show ?case by simp
next
  case (list_emb_Cons2 x y xs ys)
  have "set xs \<subseteq> set ys"
    using list_emb_set [OF list_emb_Cons2.hyps(2)] by auto
  with list_emb_Cons2 show ?case by auto
qed simp

text \<open>The scoring loop appends in increasing start index.\<close>

lemma similarities_of_index_order:
  assumes "similarities_of corrcoef df window forward = Inr sims"
  shows "sorted_wrt (\<lambda>a b. cand_index a < cand_index b) sims"
proof -
  obtain js where js: "subseq js (py_range (int (length df) - window - forward))"
    "map cand_index sims = js"
    using assms scoring_loop_indices [of corrcoef df window _ _ "[]" sims]
    by (auto simp: similarities_of_def Let_def)
  have "sorted_wrt (<) js" using js(1) py_range_sorted by (rule sorted_wrt_subseq)
  then show ?thesis using js(2) by (simp add: sorted_wrt_map [symmetric])
qed

subsection \<open>Invariants of the selection loop\<close>

lemma select_loop_shape:
  "\<exists>ys. select_loop strftime top_n cs picked results = results @ ys \<and> subseq ys cs"
proof (induction cs arbitrary: picked results)
  case Nil
  then show ?case by simp
next
  case (Cons c cs)
  let ?accept = "picked (strftime (cand_ts c)) = None"
  let ?picked = "if ?accept then picked(strftime (cand_ts c) \<mapsto> True) else picked"
  let ?results = "if ?accept then results @ [c] else results"
  obtain ys where ys: "select_loop strftime top_n cs ?picked ?results = ?results @ ys"
    "subseq ys cs"
    using Cons.IH by blast
  show ?case
  proof (cases "top_n \<le> int (length ?results)")
    case True
    then have "select_loop strftime top_n (c # cs) picked results = ?results"
      by (simp add: Let_def)
    then show ?thesis by (cases ?accept) auto
  next
    case False
    then have "select_loop strftime top_n (c # cs) picked results = ?results @ ys"
      using ys(1) by (simp add: Let_def)
    then show ?thesis using ys(2) by (cases ?accept) auto
  qed
qed

lemma select_loop_distinct:
  assumes "\<forall>d. picked d = None \<longleftrightarrow> d \<notin> set (map (day_of strftime) results)"
    and "distinct (map (day_of strftime) results)"
  shows "distinct (map (day_of strftime) (select_loop strftime top_n cs picked results))"
  using assms
proof (induction cs arbitrary: picked results)
  case Nil
  then show ?case by simp
next
  case (Cons c cs)
  let ?d = "strftime (cand_ts c)"
  show ?case
  proof (cases "picked ?d = None")
    case True
    have inv: "\<forall>d. (picked(?d \<mapsto> True)) d = None \<longleftrightarrow>
        d \<notin> set (map (day_of strftime) (results @ [c]))"
      using Cons.prems(1) by auto
    have dist: "distinct (map (day_of strftime) (results @ [c]))"
      using Cons.prems True by auto
    have step: "select_loop strftime top_n (c # cs) picked results =
        (if top_n \<le> int (length (results @ [c])) then results @ [c]
         else select_loop strftime top_n cs (picked(?d \<mapsto> True)) (results @ [c]))"
      using True by (simp add: Let_def)
    show ?thesis
      unfolding step using dist Cons.IH [OF inv dist] by (cases "top_n \<le> int (length (results @ [c]))") (simp_all only: if_True if_False)
  next
    case False
    have step: "select_loop strftime top_n (c # cs) picked results =
        (if top_n \<le> int (length results) then results
         else select_loop strftime top_n cs picked results)"
      by (simp add: Let_def False)
    show ?thesis
      unfolding step using Cons.prems(2) Cons.IH [OF Cons.prems] by (cases "top_n \<le> int (length results)") (simp_all only: if_True if_False)
  qed
qed

lemma select_loop_length:
  "length (select_loop strftime top_n cs picked results) \<le>
     max (Suc (length results)) (nat top_n)"
proof (induction cs arbitrary: picked results)
  case Nil
  then show ?case by simp
next
  case (Cons c cs)
  let ?accept = "picked (strftime (cand_ts c)) = None"
  let ?picked = "if ?accept then picked(strftime (cand_ts c) \<mapsto> True) else picked"
  let ?results = "if ?accept then results @ [c] else results"
  have len: "length ?results \<le> Suc (length results)" by simp
  show ?case
  proof (cases "top_n \<le> int (length ?results)")
    case True
    then have "select_loop strftime top_n (c # cs) picked results = ?results"
      by (simp add: Let_def)
    then show ?thesis using len by (simp add: max_def)
  next
    case False
    then have eq: "select_loop strftime top_n (c # cs) picked results =
        select_loop strftime top_n cs ?picked ?results"
      by (simp add: Let_def)
    have "Suc (length ?results) \<le> nat top_n" using False by linarith
    then have "max (Suc (length ?results)) (nat top_n) = nat top_n" by simp
    with Cons.IH [of ?picked ?results] eq show ?thesis by (simp add: max_def)
  qed
qed

lemma find_similar_patterns_length:
  assumes "1 \<le> top_n"
    and "find_similar_patterns corrcoef strftime df window forward top_n = Inr results"
  shows "int (length results) \<le> top_n"
proof -
  obtain sims where
    "results = select_loop strftime top_n (sort_reverse cand_score sims) Map.empty []"
    using assms(2) by (auto simp: find_similar_patterns_def split: sum.splits)
  then have "length results \<le> max (Suc 0) (nat top_n)"
    using select_loop_length [of strftime top_n _ Map.empty "[]"] by simp
  then show ?thesis using assms(1) by linarith
qed


subsection \<open>Runs of the transition system\<close>

lemma step_deterministic:
  assumes "step corrcoef strftime df window top_n s s1"
    and "step corrcoef strftime df window top_n s s2"
  shows "s1 = s2"
  using assms
  by (cases s) (auto elim!: step_ScoringE step_SortingE step_SelectingE step_DoneE step_RaisedE)

lemma final_stuck: "final s \<Longrightarrow> \<not> step corrcoef strftime df window top_n s s'"
  by (cases s) (auto elim: step_DoneE step_RaisedE)

lemma runs_unique:
  assumes "(step corrcoef strftime df window top_n)\<^sup>*\<^sup>* s s1" "final s1"
    and "(step corrcoef strftime df window top_n)\<^sup>*\<^sup>* s s2" "final s2"
  shows "s1 = s2"
  using assms
proof (induction rule: converse_rtranclp_induct)
  case base
  then show ?case
    by (metis converse_rtranclpE final_stuck)
next
  case (step s s')
  from step.prems(2) step.hyps(1) step.prems(3) obtain s'' where
    "step corrcoef strftime df window top_n s s''"
    "(step corrcoef strftime df window top_n)\<^sup>*\<^sup>* s'' s2"
    by (metis converse_rtranclpE final_stuck)
  then have "(step corrcoef strftime df window top_n)\<^sup>*\<^sup>* s' s2"
    using step.hyps(1) step_deterministic by metis
  then show ?case using step.IH step.prems by blast
qed

lemma scoring_run:
  "(step corrcoef strftime df window top_n)\<^sup>*\<^sup>* (Scoring is sims)
     (case scoring_loop corrcoef df window (iloc_from (map close df) (- window)) is sims of
        Inl e \<Rightarrow> Raised e | Inr sims' \<Rightarrow> Sorting sims')"
proof (induction "is" arbitrary: sims)
  case Nil
  show ?case by (simp add: step.scoring_finished r_into_rtranclp)
next
  case (Cons i "is")
  let ?past = "iloc_slice (map close df) i (i + window)"
  let ?current = "iloc_from (map close df) (- window)"
  show ?case
  proof (cases "int (length ?past) < window")
    case True
    then have "step corrcoef strftime df window top_n (Scoring (i # is) sims) (Scoring is sims)"
      by (rule step.skipped)
    then show ?thesis
      using True Cons.IH [of sims] by (simp add: Let_def converse_rtranclp_into_rtranclp)
  next
    case long: False
    show ?thesis
    proof (cases "corrcoef_01 corrcoef ?current ?past")
      case (Inl e)
      have "step corrcoef strftime df window top_n (Scoring (i # is) sims) (Raised e)"
        using long Inl by (rule step.corrcoef_raised)
      then show ?thesis using long Inl by (simp add: Let_def r_into_rtranclp)
    next
      case (Inr corr)
      show ?thesis
      proof (cases "iloc_at (map timestamp df) (i + window)")
        case (Inl e)
        have "step corrcoef strftime df window top_n (Scoring (i # is) sims) (Raised e)"
          using long Inr Inl by (rule step.anchor_raised)
        then show ?thesis using long Inr Inl by (simp add: Let_def r_into_rtranclp)
      next
        case ts: (Inr ts)
        have "step corrcoef strftime df window top_n (Scoring (i # is) sims)
            (Scoring is (sims @ [(corr, i, ts)]))"
          using long Inr ts by (rule step.scored)
        then show ?thesis
          using long Inr ts Cons.IH [of "sims @ [(corr, i, ts)]"]
          by (simp add: Let_def converse_rtranclp_into_rtranclp)
      qed
    qed
  qed
qed

lemma selecting_run:
  "(step corrcoef strftime df window top_n)\<^sup>*\<^sup>* (Selecting cs picked results)
     (Done (select_loop strftime top_n cs picked results))"
proof (induction cs arbitrary: picked results)
  case Nil
  show ?case by (simp add: step.exhausted r_into_rtranclp)
next
  case (Cons c cs)
  let ?d = "strftime (cand_ts c)"
  show ?case
  proof (cases "picked ?d = None")
    case True
    show ?thesis
    proof (cases "top_n \<le> int (length (results @ [c]))")
      case stop: True
      have "step corrcoef strftime df window top_n (Selecting (c # cs) picked results)
          (Done (results @ [c]))"
        using True stop by (rule step.accepted_last)
      moreover have "select_loop strftime top_n (c # cs) picked results = results @ [c]"
        using True stop by (simp add: Let_def)
      ultimately show ?thesis by (simp add: r_into_rtranclp)
    next
      case go: False
      have "step corrcoef strftime df window top_n (Selecting (c # cs) picked results)
          (Selecting cs (picked(?d \<mapsto> True)) (results @ [c]))"
        using True go by (rule step.accepted)
      moreover have "select_loop strftime top_n (c # cs) picked results =
          select_loop strftime top_n cs (picked(?d \<mapsto> True)) (results @ [c])"
        using True go by (simp add: Let_def)
      ultimately show ?thesis
        using Cons.IH [of "picked(?d \<mapsto> True)" "results @ [c]"]
        by (simp only: converse_rtranclp_into_rtranclp)
    qed
  next
    case False
    show ?thesis
    proof (cases "top_n \<le> int (length results)")
      case stop: True
      have "step corrcoef strftime df window top_n (Selecting (c # cs) picked results)
          (Done results)"
        using False stop by (rule step.rejected_last)
      moreover have "select_loop strftime top_n (c # cs) picked results = results"
        using stop by (simp add: Let_def False)
      ultimately show ?thesis by (simp add: r_into_rtranclp)
    next
      case go: False
      have "step corrcoef strftime df window top_n (Selecting (c # cs) picked results)
          (Selecting cs picked results)"
        using False go by (rule step.rejected)
      moreover have "select_loop strftime top_n (c # cs) picked results =
          select_loop strftime top_n cs picked results"
        using go by (simp add: Let_def False)
      ultimately show ?thesis
        using Cons.IH [of picked results]
        by (simp only: converse_rtranclp_into_rtranclp)
    qed
  qed
qed

lemma search_run:
  "(step corrcoef strftime df window top_n)\<^sup>*\<^sup>* (initial df window forward)
     (outcome (find_similar_patterns corrcoef strftime df window forward top_n))"
proof (cases "similarities_of corrcoef df window forward")
  case (Inl e)
  then show ?thesis
    using scoring_run [of corrcoef strftime df window top_n
        "py_range (int (length df) - window - forward)" "[]"]
    by (simp add: find_similar_patterns_def similarities_of_def initial_def)
next
  case (Inr sims)
  then have "(step corrcoef strftime df window top_n)\<^sup>*\<^sup>* (initial df window forward)
      (Sorting sims)"
    using scoring_run [of corrcoef strftime df window top_n
        "py_range (int (length df) - window - forward)" "[]"]
    by (simp add: similarities_of_def initial_def)
  also have "step corrcoef strftime df window top_n (Sorting sims)
      (Selecting (sort_reverse cand_score sims) Map.empty [])"
    by (rule step.sorted)
  also have "(step corrcoef strftime df window top_n)\<^sup>*\<^sup>*
      (Selecting (sort_reverse cand_score sims) Map.empty [])
      (Done (select_loop strftime top_n (sort_reverse cand_score sims) Map.empty []))"
    by (rule selecting_run)
  finally show ?thesis using Inr by (simp add: find_similar_patterns_def)
qed

lemma final_outcome: "final (outcome r)"
  by (cases r) simp_all

subsection \<open>The Pearson coefficient\<close>










subsection \<open>Evaluation of the search on a given frame\<close>

lemmas search_eval =
  find_similar_patterns_def similarities_of_def py_range_def iloc_from_def iloc_slice_def
  slice_bound_def iloc_at_def corrcoef_01_def pearson_def covariance_def mean_def upt_rec
  sort_reverse_def sort_ascending_def cand_score_def cand_ts_def cand_index_def day_number_def

section \<open>The claims of the specification\<close>

subsection \<open>Diversity\<close>

text \<open>
  C1. Whenever the search returns, no two returned candidates have the same
  calendar day, whatever \<open>strftime\<close> computes from the anchor timestamp: the
  selection loop accepts a candidate only when its day is not a key of
  \<open>picked\<close>, and stores the day of every candidate it accepts
  (\<open>select_loop_distinct\<close> is the loop's invariant).
\<close>

theorem diversity_invariant:
  assumes "find_similar_patterns corrcoef strftime df window forward top_n = Inr results"
  shows "distinct (map (\<lambda>c. strftime (cand_ts c)) results)"
proof -
  obtain sims where
    "results = select_loop strftime top_n (sort_reverse cand_score sims) Map.empty []"
    using assms by (auto simp: find_similar_patterns_def split: sum.splits)
  then show ?thesis
    using select_loop_distinct [of Map.empty strftime "[]" top_n] by simp
qed

text \<open>
  Five bars, the windows at 0, 1 and 2 all score 1; the anchors of the first
  two lie on the same day, so the second is dropped.
\<close>

theorem diversity_invariant_witness:
  "find_similar_patterns pearson day_number
     [\<lparr>timestamp = 0, close = 1\<rparr>, \<lparr>timestamp = 60000, close = 3\<rparr>,
      \<lparr>timestamp = 120000, close = 5\<rparr>, \<lparr>timestamp = 180000, close = 7\<rparr>,
      \<lparr>timestamp = 86400000, close = 9\<rparr>] 2 0 5
     = Inr [(Fin 1, 0, 120000), (Fin 1, 2, 86400000)]
   \<and> distinct (map (\<lambda>c. day_number (cand_ts c)) [(Fin 1, 0, 120000), (Fin 1, 2, 86400000)])"
proof -
  have run: "find_similar_patterns pearson day_number
     [\<lparr>timestamp = 0, close = 1\<rparr>, \<lparr>timestamp = 60000, close = 3\<rparr>,
      \<lparr>timestamp = 120000, close = 5\<rparr>, \<lparr>timestamp = 180000, close = 7\<rparr>,
      \<lparr>timestamp = 86400000, close = 9\<rparr>] 2 0 5
     = Inr [(Fin 1, 0, 120000), (Fin 1, 2, 86400000)]"
    by (simp add: search_eval)
  show ?thesis using run diversity_invariant [OF run] by simp
qed

subsection \<open>The bound on the result\<close>

text \<open>
  C2. The bound \<open>len(result) \<le> top_n\<close> holds for \<open>top_n \<ge> 1\<close>
  (\<open>find_similar_patterns_length\<close>). It fails for \<open>top_n \<le> 0\<close>: the loop tests
  \<^verbatim>\<open>len(results) >= top_n\<close> only after it has appended the first candidate,
  so with \<open>top_n = 0\<close> a frame that has a candidate gives a result of one
  element, not the empty result.
\<close>

theorem bound_fails_at_top_n_zero:
  "find_similar_patterns pearson day_number
     [\<lparr>timestamp = 0, close = 1\<rparr>, \<lparr>timestamp = 86400000, close = 3\<rparr>,
      \<lparr>timestamp = 172800000, close = 1\<rparr>, \<lparr>timestamp = 259200000, close = 3\<rparr>] 2 0 0
     = Inr [(Fin 1, 0, 172800000)]"
  by (simp add: search_eval)

subsection \<open>Candidates with an undefined score\<close>

text \<open>
  C3, as the code has it. The scoring loop has no test on the score: for a
  positive window and a non-negative forward length every start index of the
  range yields a candidate, whatever its score, NaN included; the search
  raises nothing for it, and the candidate is in the sorted list that the
  selection loop walks.
\<close>

theorem nan_candidates_kept:
  assumes "0 < window" "0 \<le> forward"
    and "i \<in> set (py_range (int (length df) - window - forward))"
  shows "\<exists>sims. similarities_of corrcoef df window forward = Inr sims \<and>
           candidate_at corrcoef df window i \<in> set (sort_reverse cand_score sims)"
  using assms similarities_of_regular [of window forward corrcoef df]
  by (simp add: set_sort_reverse)

theorem nan_candidates_kept_witness:
  "(0::int) < 2 \<and> (0::int) \<le> 0
   \<and> 0 \<in> set (py_range (int (length
        [\<lparr>timestamp = 0, close = 1\<rparr>, \<lparr>timestamp = 86400000, close = 1\<rparr>,
         \<lparr>timestamp = 172800000, close = 3\<rparr>, \<lparr>timestamp = 259200000, close = (5::real)\<rparr>])
        - 2 - 0))
   \<and> candidate_at pearson
        [\<lparr>timestamp = 0, close = 1\<rparr>, \<lparr>timestamp = 86400000, close = 1\<rparr>,
         \<lparr>timestamp = 172800000, close = 3\<rparr>, \<lparr>timestamp = 259200000, close = 5\<rparr>] 2 0
      = (NaN, 0, 172800000)
   \<and> (NaN, 0, 172800000) \<in> set (sort_reverse cand_score
        [(NaN, 0, 172800000), (Fin 1, 1, 259200000)])"
proof -
  let ?df = "[\<lparr>timestamp = 0, close = 1\<rparr>, \<lparr>timestamp = 86400000, close = 1\<rparr>,
         \<lparr>timestamp = 172800000, close = 3\<rparr>, \<lparr>timestamp = 259200000, close = (5::real)\<rparr>]"
  have w: "(0::int) < 2" and f: "(0::int) \<le> 0" by simp_all
  have i: "0 \<in> set (py_range (int (length ?df) - 2 - 0))"
    by (simp add: py_range_def upt_rec)
  have c: "candidate_at pearson ?df 2 0 = (NaN, 0, 172800000)"
    by (simp add: candidate_at_def search_eval)
  have s: "similarities_of pearson ?df 2 0 = Inr [(NaN, 0, 172800000), (Fin 1, 1, 259200000)]"
    by (simp add: search_eval)
  from nan_candidates_kept [OF w f i, of pearson]
  have "(NaN, 0, 172800000) \<in> set (sort_reverse cand_score
        [(NaN, 0, 172800000), (Fin 1, 1, 259200000)])"
    unfolding c s by simp
  with i c show ?thesis by simp
qed

text \<open>
  C3 as stated fails: three bars, the only candidate window is flat, its score
  is NaN, and the candidate is the result.
\<close>

theorem nan_candidate_returned:
  "find_similar_patterns pearson day_number
     [\<lparr>timestamp = 0, close = 1\<rparr>, \<lparr>timestamp = 60000, close = 1\<rparr>,
      \<lparr>timestamp = 120000, close = 3\<rparr>] 2 0 10
     = Inr [(NaN, 0, 120000)]
   \<and> is_nan (cand_score (NaN, 0, 120000))"
  by (simp add: search_eval)

subsection \<open>The order of the sorted list\<close>

text \<open>
  C4, as the code has it. When no candidate's score is NaN, the sorted list is
  in descending order of score, and of two candidates with equal scores the
  one with the smaller start index comes first: the sort is stable and the
  scoring loop appends in increasing start index.
\<close>

theorem tie_break_without_nan:
  assumes "similarities_of corrcoef df window forward = Inr sims"
    and "\<forall>c\<in>set sims. \<not> is_nan (cand_score c)"
  shows "sorted_wrt (\<lambda>a b. score_ge (cand_score a) (cand_score b) \<and>
            (score_eq (cand_score a) (cand_score b) \<longrightarrow> cand_index a < cand_index b))
           (sort_reverse cand_score sims)"
proof -
  let ?sorted = "sort_reverse cand_score sims"
  have desc: "sorted_wrt (\<lambda>a b. score_ge (cand_score a) (cand_score b)) ?sorted"
    using assms(2) by (rule descending_sort_reverse)
  have "sorted_wrt (\<lambda>a b. cand_index a < cand_index b)
          (filter (\<lambda>c. cand_score c = k) ?sorted)" for k
    using similarities_of_index_order [OF assms(1)] assms(2)
    by (simp add: filter_sort_reverse sorted_wrt_filter)
  then have "sorted_wrt (\<lambda>a b. cand_score a = cand_score b \<longrightarrow> cand_index a < cand_index b)
          ?sorted"
    by (rule sorted_wrt_ties)
  then have ties: "sorted_wrt (\<lambda>a b. score_eq (cand_score a) (cand_score b) \<longrightarrow>
          cand_index a < cand_index b) ?sorted"
    by (rule sorted_wrt_mono_rel [rotated]) (auto elim: score_eq.elims)
  show ?thesis using desc ties by (rule sorted_wrt_conj)
qed

text \<open>
  The windows at 0 and 2 both score 1 and the window at 1 scores -1: the
  sorted list has 0 before 2, and both before 1.
\<close>

theorem tie_break_without_nan_witness:
  "similarities_of pearson
     [\<lparr>timestamp = 0, close = 1\<rparr>, \<lparr>timestamp = 60000, close = 3\<rparr>,
      \<lparr>timestamp = 120000, close = 1\<rparr>, \<lparr>timestamp = 180000, close = 3\<rparr>,
      \<lparr>timestamp = 86400000, close = 5\<rparr>] 2 0
     = Inr [(Fin 1, 0, 120000), (Fin (- 1), 1, 180000), (Fin 1, 2, 86400000)]
   \<and> list_all (\<lambda>c. \<not> is_nan (cand_score c))
        [(Fin 1, 0, 120000), (Fin (- 1), 1, 180000), (Fin 1, 2, 86400000)]
   \<and> sort_reverse cand_score [(Fin 1, 0, 120000), (Fin (- 1), 1, 180000), (Fin 1, 2, 86400000)]
     = [(Fin 1, 0, 120000), (Fin 1, 2, 86400000), (Fin (- 1), 1, 180000)]
   \<and> sorted_wrt (\<lambda>a b. score_ge (cand_score a) (cand_score b) \<and>
            (score_eq (cand_score a) (cand_score b) \<longrightarrow> cand_index a < cand_index b))
        [(Fin 1, 0, 120000), (Fin 1, 2, 86400000), (Fin (- 1), 1, 180000)]"
proof -
  have sims: "similarities_of pearson
     [\<lparr>timestamp = 0, close = 1\<rparr>, \<lparr>timestamp = 60000, close = 3\<rparr>,
      \<lparr>timestamp = 120000, close = 1\<rparr>, \<lparr>timestamp = 180000, close = 3\<rparr>,
      \<lparr>timestamp = 86400000, close = 5\<rparr>] 2 0
     = Inr [(Fin 1, 0, 120000), (Fin (- 1), 1, 180000), (Fin 1, 2, 86400000)]"
    by (simp add: search_eval)
  have fin: "\<forall>c\<in>set [(Fin 1, 0, 120000), (Fin (- 1), 1, 180000), (Fin 1, 2, 86400000)].
      \<not> is_nan (cand_score c)"
    by (simp add: cand_score_def)
  have srt: "sort_reverse cand_score
      [(Fin 1, 0, 120000), (Fin (- 1), 1, 180000), (Fin 1, 2, 86400000)]
     = [(Fin 1, 0, 120000), (Fin 1, 2, 86400000), (Fin (- 1), 1, 180000)]"
    by (simp add: search_eval)
  show ?thesis
    using sims fin srt tie_break_without_nan [OF sims fin]
    unfolding srt by (simp only: list_all_iff simp_thms)
qed

text \<open>
  C4 as stated fails: the first of two candidate windows is flat and scores
  NaN. Python reverses the two keys to 1.0, NaN, finds that NaN is not less
  than 1.0, leaves them and reverses again: the sorted list begins with the
  NaN candidate, and NaN \<open>\<ge>\<close> 1.0 is false.
\<close>

theorem sorted_not_descending_with_nan:
  "similarities_of pearson
     [\<lparr>timestamp = 0, close = 2\<rparr>, \<lparr>timestamp = 86400000, close = 2\<rparr>,
      \<lparr>timestamp = 172800000, close = 4\<rparr>, \<lparr>timestamp = 259200000, close = 6\<rparr>] 2 0
     = Inr [(NaN, 0, 172800000), (Fin 1, 1, 259200000)]
   \<and> sort_reverse cand_score [(NaN, 0, 172800000), (Fin 1, 1, 259200000)]
     = [(NaN, 0, 172800000), (Fin 1, 1, 259200000)]
   \<and> \<not> score_ge (cand_score (NaN, 0, 172800000)) (cand_score (Fin 1, 1, 259200000))"
  by (simp add: search_eval)

subsection \<open>The order of the result\<close>

text \<open>
  C5, as the code has it. When no candidate's score is NaN, each returned
  candidate's score is at least the score of the next one.
\<close>

theorem ranking_without_nan:
  assumes "similarities_of corrcoef df window forward = Inr sims"
    and "\<forall>c\<in>set sims. \<not> is_nan (cand_score c)"
    and "find_similar_patterns corrcoef strftime df window forward top_n = Inr results"
    and "Suc i < length results"
  shows "score_ge (cand_score (results ! i)) (cand_score (results ! Suc i))"
proof -
  have res: "results = select_loop strftime top_n (sort_reverse cand_score sims) Map.empty []"
    using assms(1,3) by (simp add: find_similar_patterns_def)
  then have "subseq results (sort_reverse cand_score sims)"
    using select_loop_shape [of strftime top_n "sort_reverse cand_score sims" Map.empty "[]"]
    by auto
  moreover have "sorted_wrt (\<lambda>a b. score_ge (cand_score a) (cand_score b))
      (sort_reverse cand_score sims)"
    using assms(2) by (rule descending_sort_reverse)
  ultimately have "sorted_wrt (\<lambda>a b. score_ge (cand_score a) (cand_score b)) results"
    by (rule sorted_wrt_subseq)
  then show ?thesis using assms(4) by (simp add: sorted_wrt_iff_nth_less)
qed

theorem ranking_without_nan_witness:
  "similarities_of pearson
     [\<lparr>timestamp = 0, close = 1\<rparr>, \<lparr>timestamp = 86400000, close = 3\<rparr>,
      \<lparr>timestamp = 172800000, close = 1\<rparr>, \<lparr>timestamp = 259200000, close = 3\<rparr>,
      \<lparr>timestamp = 345600000, close = 1\<rparr>] 2 0
     = Inr [(Fin (- 1), 0, 172800000), (Fin 1, 1, 259200000), (Fin (- 1), 2, 345600000)]
   \<and> list_all (\<lambda>c. \<not> is_nan (cand_score c))
        [(Fin (- 1), 0, 172800000), (Fin 1, 1, 259200000), (Fin (- 1), 2, 345600000)]
   \<and> find_similar_patterns pearson day_number
     [\<lparr>timestamp = 0, close = 1\<rparr>, \<lparr>timestamp = 86400000, close = 3\<rparr>,
      \<lparr>timestamp = 172800000, close = 1\<rparr>, \<lparr>timestamp = 259200000, close = 3\<rparr>,
      \<lparr>timestamp = 345600000, close = 1\<rparr>] 2 0 2
     = Inr [(Fin 1, 1, 259200000), (Fin (- 1), 0, 172800000)]
   \<and> Suc 0 < length [(Fin 1, 1, 259200000), (Fin (- 1), 0, 172800000)]
   \<and> score_ge (cand_score ([(Fin 1, 1, 259200000), (Fin (- 1), 0, 172800000)] ! 0))
        (cand_score ([(Fin 1, 1, 259200000), (Fin (- 1), 0, 172800000)] ! Suc 0))"
proof -
  let ?df = "[\<lparr>timestamp = 0, close = 1\<rparr>, \<lparr>timestamp = 86400000, close = 3\<rparr>,
      \<lparr>timestamp = 172800000, close = 1\<rparr>, \<lparr>timestamp = 259200000, close = 3\<rparr>,
      \<lparr>timestamp = 345600000, close = 1\<rparr>]"
  have sims: "similarities_of pearson ?df 2 0
     = Inr [(Fin (- 1), 0, 172800000), (Fin 1, 1, 259200000), (Fin (- 1), 2, 345600000)]"
    by (simp add: search_eval)
  have fin: "\<forall>c\<in>set [(Fin (- 1), 0, 172800000), (Fin 1, 1, 259200000),
      (Fin (- 1), 2, 345600000)]. \<not> is_nan (cand_score c)"
    by (simp add: cand_score_def)
  have run: "find_similar_patterns pearson day_number ?df 2 0 2
     = Inr [(Fin 1, 1, 259200000), (Fin (- 1), 0, 172800000)]"
    by (simp add: search_eval)
  have i: "Suc 0 < length [(Fin 1, 1, 259200000), (Fin (- 1), 0, 172800000)]"
    by simp
  show ?thesis
    using sims fin run i ranking_without_nan [OF sims fin run i]
    by (simp only: list_all_iff simp_thms)
qed

text \<open>
  C5 as stated fails: the frame of four bars whose first window is flat gives
  the NaN candidate first and the candidate of score 1 second, and
  NaN \<open>\<ge>\<close> 1.0 is false.
\<close>

theorem ranking_fails_with_nan:
  "find_similar_patterns pearson day_number
     [\<lparr>timestamp = 0, close = 1\<rparr>, \<lparr>timestamp = 86400000, close = 1\<rparr>,
      \<lparr>timestamp = 172800000, close = 3\<rparr>, \<lparr>timestamp = 259200000, close = 5\<rparr>] 2 0 10
     = Inr [(NaN, 0, 172800000), (Fin 1, 1, 259200000)]
   \<and> \<not> score_ge (cand_score ([(NaN, 0, 172800000), (Fin 1, 1, 259200000)] ! 0))
          (cand_score ([(NaN, 0, 172800000), (Fin 1, 1, 259200000)] ! 1))"
  by (simp add: search_eval)

subsection \<open>Enumeration of the candidates\<close>

text \<open>
  C6. For a positive window and a non-negative forward length the scoring
  loop raises nothing and \<^verbatim>\<open>similarities\<close> holds one candidate for each start
  index of \<^verbatim>\<open>range(len(df) - window - forward)\<close>, in that order, and no other;
  the candidate of start index \<open>i\<close> carries \<open>i\<close> and the timestamp of the bar
  at position \<open>i + window\<close>, which lies inside the frame.
\<close>

theorem candidates_enumerated:
  assumes "0 < window" "0 \<le> forward"
  shows "similarities_of corrcoef df window forward =
           Inr (map (candidate_at corrcoef df window)
                  (py_range (int (length df) - window - forward)))
         \<and> (\<forall>i\<in>set (py_range (int (length df) - window - forward)).
              cand_index (candidate_at corrcoef df window i) = i \<and>
              nat (i + window) < length df \<and>
              cand_ts (candidate_at corrcoef df window i) = timestamp (df ! nat (i + window)))"
  using assms similarities_of_regular [of window forward corrcoef df]
  by (auto simp: candidate_at_def cand_index_def cand_ts_def py_range_mem)

theorem candidates_enumerated_witness:
  "(0::int) < 2 \<and> (0::int) \<le> 1
   \<and> py_range (int (length
        [\<lparr>timestamp = 0, close = 1\<rparr>, \<lparr>timestamp = 60000, close = 3\<rparr>,
         \<lparr>timestamp = 120000, close = 1\<rparr>, \<lparr>timestamp = 180000, close = 3\<rparr>,
         \<lparr>timestamp = 240000, close = (5::real)\<rparr>]) - 2 - 1) = [0, 1]
   \<and> similarities_of pearson
     [\<lparr>timestamp = 0, close = 1\<rparr>, \<lparr>timestamp = 60000, close = 3\<rparr>,
      \<lparr>timestamp = 120000, close = 1\<rparr>, \<lparr>timestamp = 180000, close = 3\<rparr>,
      \<lparr>timestamp = 240000, close = 5\<rparr>] 2 1
     = Inr [(Fin 1, 0, 120000), (Fin (- 1), 1, 180000)]"
proof -
  let ?df = "[\<lparr>timestamp = 0, close = 1\<rparr>, \<lparr>timestamp = 60000, close = 3\<rparr>,
      \<lparr>timestamp = 120000, close = 1\<rparr>, \<lparr>timestamp = 180000, close = 3\<rparr>,
      \<lparr>timestamp = 240000, close = (5::real)\<rparr>]"
  have w: "(0::int) < 2" and f: "(0::int) \<le> 1" by simp_all
  have r: "py_range (int (length ?df) - 2 - 1) = [0, 1]"
    by (simp add: py_range_def upt_rec)
  have "similarities_of pearson ?df 2 1 =
      Inr (map (candidate_at pearson ?df 2) (py_range (int (length ?df) - 2 - 1)))"
    using candidates_enumerated [OF w f, of pearson ?df] by blast
  then have "similarities_of pearson ?df 2 1 = Inr [(Fin 1, 0, 120000), (Fin (- 1), 1, 180000)]"
    by (simp add: candidate_at_def search_eval)
  with r show ?thesis by simp
qed

subsection \<open>A series too short for the search\<close>

text \<open>
  C7, as the code has it. The function has no error for a short series: when
  the series is shorter than \<open>window + forward\<close> the range of the scoring loop
  is empty and the search returns the empty result, whatever the parameters.
\<close>

theorem short_series_returns_empty:
  assumes "int (length df) < window + forward"
  shows "find_similar_patterns corrcoef strftime df window forward top_n = Inr []"
  using assms
  by (simp add: find_similar_patterns_def similarities_of_def py_range_nil sort_reverse_def
      sort_ascending_def)

theorem short_series_returns_empty_witness:
  "int (length [\<lparr>timestamp = 0, close = 1\<rparr>, \<lparr>timestamp = 60000, close = 3\<rparr>,
      \<lparr>timestamp = 120000, close = (2::real)\<rparr>]) < 3 + 2
   \<and> find_similar_patterns pearson day_number
     [\<lparr>timestamp = 0, close = 1\<rparr>, \<lparr>timestamp = 60000, close = 3\<rparr>,
      \<lparr>timestamp = 120000, close = 2\<rparr>] 3 2 10 = Inr []"
proof -
  have short: "int (length [\<lparr>timestamp = 0, close = 1\<rparr>, \<lparr>timestamp = 60000, close = 3\<rparr>,
      \<lparr>timestamp = 120000, close = (2::real)\<rparr>]) < 3 + 2"
    by simp
  show ?thesis using short short_series_returns_empty [OF short, of pearson day_number 10]
    by simp
qed

text \<open>
  C7 as stated fails: a series of \<open>window + forward - 1 = 4\<close> bars returns the
  empty list, a normal result, not an error.
\<close>

theorem short_series_no_error:
  "int (length [\<lparr>timestamp = 0, close = 1\<rparr>, \<lparr>timestamp = 60000, close = 3\<rparr>,
      \<lparr>timestamp = 120000, close = 2\<rparr>, \<lparr>timestamp = 180000, close = (5::real)\<rparr>]) = 3 + 2 - 1
   \<and> find_similar_patterns pearson day_number
     [\<lparr>timestamp = 0, close = 1\<rparr>, \<lparr>timestamp = 60000, close = 3\<rparr>,
      \<lparr>timestamp = 120000, close = 2\<rparr>, \<lparr>timestamp = 180000, close = 5\<rparr>] 3 2 10 = Inr []"
  by (simp add: find_similar_patterns_def similarities_of_def py_range_def sort_reverse_def
      sort_ascending_def)

subsection \<open>Determinism\<close>

text \<open>
  C8. Two invocations on the same frame and parameters end alike: any two runs
  of the search from its initial state that reach an end state reach the same
  one, with the same list in the same order or the same exception, and that
  state is the value of \<open>find_similar_patterns\<close>. No step has a choice
  (\<open>step_deterministic\<close>), and a run to an end state exists (\<open>search_run\<close>).
\<close>

theorem search_deterministic:
  assumes "(step corrcoef strftime df window top_n)\<^sup>*\<^sup>* (initial df window forward) s1"
    and "final s1"
    and "(step corrcoef strftime df window top_n)\<^sup>*\<^sup>* (initial df window forward) s2"
    and "final s2"
  shows "s1 = s2 \<and>
         s1 = outcome (find_similar_patterns corrcoef strftime df window forward top_n)"
proof -
  have "s1 = outcome (find_similar_patterns corrcoef strftime df window forward top_n)"
    using assms(1,2) search_run final_outcome by (rule runs_unique)
  moreover have "s1 = s2" using assms by (rule runs_unique)
  ultimately show ?thesis by simp
qed

theorem search_deterministic_witness:
  "(step pearson day_number
      [\<lparr>timestamp = 0, close = 1\<rparr>, \<lparr>timestamp = 60000, close = 3\<rparr>,
       \<lparr>timestamp = 120000, close = 5\<rparr>, \<lparr>timestamp = 180000, close = 7\<rparr>,
       \<lparr>timestamp = 86400000, close = 9\<rparr>] 2 5)\<^sup>*\<^sup>*
     (initial
       [\<lparr>timestamp = 0, close = 1\<rparr>, \<lparr>timestamp = 60000, close = 3\<rparr>,
        \<lparr>timestamp = 120000, close = 5\<rparr>, \<lparr>timestamp = 180000, close = 7\<rparr>,
        \<lparr>timestamp = 86400000, close = 9\<rparr>] 2 0)
     (Done [(Fin 1, 0, 120000), (Fin 1, 2, 86400000)])
   \<and> final (Done [(Fin 1, 0, 120000), (Fin 1, 2, 86400000)] :: int state)
   \<and> (Done [(Fin 1, 0, 120000), (Fin 1, 2, 86400000)] :: int state) =
       outcome (find_similar_patterns pearson day_number
         [\<lparr>timestamp = 0, close = 1\<rparr>, \<lparr>timestamp = 60000, close = 3\<rparr>,
          \<lparr>timestamp = 120000, close = 5\<rparr>, \<lparr>timestamp = 180000, close = 7\<rparr>,
          \<lparr>timestamp = 86400000, close = 9\<rparr>] 2 0 5)"
proof -
  let ?df = "[\<lparr>timestamp = 0, close = 1\<rparr>, \<lparr>timestamp = 60000, close = 3\<rparr>,
       \<lparr>timestamp = 120000, close = 5\<rparr>, \<lparr>timestamp = 180000, close = 7\<rparr>,
       \<lparr>timestamp = 86400000, close = 9\<rparr>]"
  have val: "find_similar_patterns pearson day_number ?df 2 0 5
      = Inr [(Fin 1, 0, 120000), (Fin 1, 2, 86400000)]"
    by (simp add: search_eval)
  have run: "(step pearson day_number ?df 2 5)\<^sup>*\<^sup>* (initial ?df 2 0)
      (Done [(Fin 1, 0, 120000), (Fin 1, 2, 86400000)])"
    using search_run [of pearson day_number ?df 2 5 0] unfolding val by simp
  have fin: "final (Done [(Fin 1, 0, 120000), (Fin 1, 2, 86400000)] :: int state)"
    by simp
  show ?thesis using run fin search_deterministic [OF run fin run fin] by simp
qed

subsection \<open>The scorer\<close>



subsection \<open>Slices and anchors inside the loop\<close>

text \<open>
  C10. For a window and a forward length that are not negative, at every index
  \<open>i\<close> of \<^verbatim>\<open>range(len(df) - window - forward)\<close> the slice from \<open>i\<close> to
  \<open>i + window\<close> has exactly \<open>window\<close> elements, so the test
  \<^verbatim>\<open>len(past) < window\<close> is false, and the position \<open>i + window\<close> is inside
  the frame, so the timestamp lookup returns that bar's timestamp and does not
  raise.
\<close>

theorem loop_slice_and_anchor_in_bounds:
  assumes "0 \<le> window" "0 \<le> forward"
    and "i \<in> set (py_range (int (length df) - window - forward))"
  shows "int (length (iloc_slice (map close df) i (i + window))) = window
         \<and> \<not> int (length (iloc_slice (map close df) i (i + window))) < window
         \<and> nat (i + window) < length df
         \<and> iloc_at (map timestamp df) (i + window) = Inr (timestamp (df ! nat (i + window)))"
proof -
  have i: "0 \<le> i" "i + window < int (length df)"
    using assms by (auto simp: py_range_mem)
  have "int (length (iloc_slice (map close df) i (i + window))) = window"
    using i assms(1) by (simp add: length_iloc_slice_window)
  moreover have "iloc_at (map timestamp df) (i + window) = Inr (timestamp (df ! nat (i + window)))"
    using i assms(1) by (simp add: iloc_at_in_range)
  moreover have "nat (i + window) < length df" using i assms(1) by linarith
  ultimately show ?thesis by simp
qed

theorem loop_slice_and_anchor_in_bounds_witness:
  "(0::int) \<le> 2 \<and> (0::int) \<le> 1
   \<and> (1::int) \<in> set (py_range (int (length [\<lparr>timestamp = 0, close = 1\<rparr>,
      \<lparr>timestamp = 60000, close = 3\<rparr>, \<lparr>timestamp = 120000, close = 1\<rparr>,
      \<lparr>timestamp = 180000, close = 3\<rparr>, \<lparr>timestamp = 240000, close = (5::real)\<rparr>]) - 2 - 1))
   \<and> iloc_slice (map close [\<lparr>timestamp = 0, close = 1\<rparr>,
      \<lparr>timestamp = 60000, close = 3\<rparr>, \<lparr>timestamp = 120000, close = 1\<rparr>,
      \<lparr>timestamp = 180000, close = 3\<rparr>, \<lparr>timestamp = 240000, close = 5\<rparr>]) 1 (1 + 2) = [3, 1]
   \<and> iloc_at (map timestamp [\<lparr>timestamp = 0, close = 1\<rparr>,
      \<lparr>timestamp = 60000, close = 3\<rparr>, \<lparr>timestamp = 120000, close = 1\<rparr>,
      \<lparr>timestamp = 180000, close = 3\<rparr>, \<lparr>timestamp = 240000, close = (5::real)\<rparr>]) (1 + 2)
     = Inr 180000"
proof -
  let ?df = "[\<lparr>timestamp = 0, close = 1\<rparr>,
      \<lparr>timestamp = 60000, close = 3\<rparr>, \<lparr>timestamp = 120000, close = 1\<rparr>,
      \<lparr>timestamp = 180000, close = 3\<rparr>, \<lparr>timestamp = 240000, close = (5::real)\<rparr>]"
  have w: "(0::int) \<le> 2" and f: "(0::int) \<le> 1" by simp_all
  have i: "(1::int) \<in> set (py_range (int (length ?df) - 2 - 1))"
    by (simp add: py_range_def upt_rec)
  show ?thesis
    using i loop_slice_and_anchor_in_bounds [OF w f i]
    by (simp add: iloc_slice_def slice_bound_def)
qed

end
